theory Spec2Isabelle
  imports Complex_Main "HOL-Library.Word"
begin

section \<open>JavaScript values\<close>

text \<open>
  The plugin (\<^verbatim>\<open>index.mjs\<close>) is glue between a linter and the parser
  \<^verbatim>\<open>parseWithOptions\<close> of the package \<^verbatim>\<open>@cldmv/jsonv/parser\<close>. It handles untyped
  JavaScript values: the language options, whatever the parser returns and whatever the
  parser throws. A JavaScript string is a sequence of UTF-16 code units, which matters for
  the line separators U+2028 and U+2029.
\<close>

type_synonym jsstring = "16 word list"

text \<open>An ASCII literal of the source as a sequence of code units.\<close>

definition ustr :: "string \<Rightarrow> jsstring" where
  "ustr s = map of_char s"

text \<open>
  Numbers are the finite values, \<^verbatim>\<open>NaN\<close> and the two infinities (\<open>JInfinity True\<close> is
  the positive one); a negative zero is not told apart from zero, which no operation of
  the plugin does either. An object (an error, an array or a function as well) is the
  association list of the properties that a read of it sees, its own and the inherited
  ones, the first entry of a name being the one in effect. Reading a property runs no
  code: getters and proxies are not modelled.
\<close>

datatype jsval =
    JUndefined
  | JNull
  | JBool bool
  | JNum real
  | JNaN
  | JInfinity bool
  | JBigInt int
  | JSymbol string
  | JStr jsstring
  | JObj "(string \<times> jsval) list"

text \<open>
  An expression either completes with a value or throws one. Any value can be thrown.
\<close>

datatype 'a completion = Normal 'a | Throw jsval

text \<open>The \<^verbatim>\<open>TypeError\<close> raised when a property of \<^verbatim>\<open>null\<close> or \<^verbatim>\<open>undefined\<close> is read.\<close>

definition TypeError :: jsval where
  "TypeError = JObj [(''name'', JStr (ustr ''TypeError''))]"

text \<open>\<^verbatim>\<open>ToBoolean\<close>: the falsy values are the ones listed, every other value is truthy.\<close>

fun truthy :: "jsval \<Rightarrow> bool" where
  "truthy JUndefined = False"
| "truthy JNull = False"
| "truthy (JBool b) = b"
| "truthy (JNum r) = (r \<noteq> 0)"
| "truthy JNaN = False"
| "truthy (JInfinity _) = True"
| "truthy (JBigInt i) = (i \<noteq> 0)"
| "truthy (JSymbol _) = True"
| "truthy (JStr s) = (s \<noteq> [])"
| "truthy (JObj _) = True"

text \<open>\<^verbatim>\<open>a || b\<close> on values that are already evaluated.\<close>

definition js_or :: "jsval \<Rightarrow> jsval \<Rightarrow> jsval" where
  "js_or a b = (if truthy a then a else b)"

text \<open>
  Reading the property \<open>k\<close> of a value other than \<^verbatim>\<open>null\<close> and \<^verbatim>\<open>undefined\<close>. The only
  names the plugin reads are \<^verbatim>\<open>year\<close>, \<^verbatim>\<open>strictBigInt\<close>, \<^verbatim>\<open>message\<close>, \<^verbatim>\<open>line\<close> and
  \<^verbatim>\<open>column\<close>; no primitive value has a property of one of these names, so the read gives
  \<^verbatim>\<open>undefined\<close> there.
\<close>

fun prop_of :: "jsval \<Rightarrow> string \<Rightarrow> jsval" where
  "prop_of (JObj ps) k = (case map_of ps k of None \<Rightarrow> JUndefined | Some v \<Rightarrow> v)"
| "prop_of _ k = JUndefined"

text \<open>The read \<^verbatim>\<open>v.k\<close> itself: it throws on \<^verbatim>\<open>null\<close> and \<^verbatim>\<open>undefined\<close>.\<close>

fun get_prop :: "jsval \<Rightarrow> string \<Rightarrow> jsval completion" where
  "get_prop JUndefined k = Throw TypeError"
| "get_prop JNull k = Throw TypeError"
| "get_prop v k = Normal (prop_of v k)"

section \<open>The language object: \<^verbatim>\<open>jsonvLanguage\<close>\<close>

definition fileType :: string where
  "fileType = ''text''"



definition nodeTypeKey :: string where
  "nodeTypeKey = ''type''"

subsection \<open>\<^verbatim>\<open>parse(file, context)\<close>\<close>

text \<open>
  The file and the context are objects of the linter; \<^verbatim>\<open>parse\<close> reads \<^verbatim>\<open>file.body\<close> and
  \<^verbatim>\<open>context.languageOptions\<close> only. The records are extensible, so a file or a context
  may carry any other field.
\<close>

record jsfile =
  body :: jsval

record jscontext =
  languageOptions :: jsval

text \<open>The object literal that \<^verbatim>\<open>parse\<close> passes to \<^verbatim>\<open>parseWithOptions\<close>.\<close>

record parser_options =
  year :: jsval
  strictBigInt :: jsval
  mode :: string
  preserveComments :: bool
  tolerant :: bool

text \<open>
  \<^verbatim>\<open>parseWithOptions\<close> belongs to another package. It is a parameter of the model: a
  function of the text and the options that completes with the parsed value or throws.
\<close>

type_synonym parser = "jsval \<Rightarrow> parser_options \<Rightarrow> jsval completion"

record program =
  node_type :: string
  program_body :: "jsval list"
  sourceType :: string
  comments :: "jsval list"
  tokens :: "jsval list"

record parse_error =
  message :: jsval
  line :: jsval
  column :: jsval

text \<open>
  The two shapes of the value returned by \<^verbatim>\<open>parse\<close>: \<^verbatim>\<open>{ok: true, ast, jsonvValue}\<close> and
  \<^verbatim>\<open>{ok: false, errors}\<close>.
\<close>

datatype parse_result =
    ParseOk program jsval
  | ParseFail "parse_error list"

fun ok :: "parse_result \<Rightarrow> bool" where
  "ok (ParseOk _ _) = True"
| "ok (ParseFail _) = False"

text \<open>\<^verbatim>\<open>const options = context.languageOptions || {}\<close>\<close>

definition options_of :: "'c jscontext_scheme \<Rightarrow> jsval" where
  "options_of ctx = js_or (languageOptions ctx) (JObj [])"

text \<open>
  The argument object of the call, evaluated field by field in the order of the source:
  \<^verbatim>\<open>year: options.year || 2025\<close>,
  \<^verbatim>\<open>strictBigInt: options.strictBigInt !== undefined ? options.strictBigInt : false\<close>,
  \<^verbatim>\<open>mode: "jsonv"\<close>, \<^verbatim>\<open>preserveComments: true\<close>, \<^verbatim>\<open>tolerant: false\<close>.
\<close>

definition call_options :: "jsval \<Rightarrow> parser_options completion" where
  "call_options options =
     (case get_prop options ''year'' of
        Throw e \<Rightarrow> Throw e
      | Normal y \<Rightarrow>
          (case get_prop options ''strictBigInt'' of
             Throw e \<Rightarrow> Throw e
           | Normal s \<Rightarrow>
               Normal \<lparr>year = js_or y (JNum 2025),
                       strictBigInt = (if s \<noteq> JUndefined then s else JBool False),
                       mode = ''jsonv'',
                       preserveComments = True,
                       tolerant = False\<rparr>))"

text \<open>The body of the \<^verbatim>\<open>try\<close> block.\<close>

definition parse_try :: "parser \<Rightarrow> jsval \<Rightarrow> jsval \<Rightarrow> parse_result completion" where
  "parse_try parseWithOptions text options =
     (case call_options options of
        Throw e \<Rightarrow> Throw e
      | Normal opts \<Rightarrow>
          (case parseWithOptions text opts of
             Throw e \<Rightarrow> Throw e
           | Normal result \<Rightarrow>
               Normal (ParseOk \<lparr>node_type = ''Program'',
                                program_body = [],
                                sourceType = ''module'',
                                comments = [],
                                tokens = []\<rparr>
                               result)))"

text \<open>
  The body of the \<^verbatim>\<open>catch (error)\<close> block: \<^verbatim>\<open>error.message\<close>, \<^verbatim>\<open>error.line || 1\<close> and
  \<^verbatim>\<open>error.column || 1\<close>. Nothing encloses it, so what it throws leaves \<^verbatim>\<open>parse\<close>.
\<close>

definition parse_catch :: "jsval \<Rightarrow> parse_result completion" where
  "parse_catch error =
     (case get_prop error ''message'' of
        Throw e \<Rightarrow> Throw e
      | Normal m \<Rightarrow>
          (case get_prop error ''line'' of
             Throw e \<Rightarrow> Throw e
           | Normal l \<Rightarrow>
               (case get_prop error ''column'' of
                  Throw e \<Rightarrow> Throw e
                | Normal c \<Rightarrow>
                    Normal (ParseFail [\<lparr>message = m,
                                         line = js_or l (JNum 1),
                                         column = js_or c (JNum 1)\<rparr>]))))"

definition parse ::
    "parser \<Rightarrow> 'f jsfile_scheme \<Rightarrow> 'c jscontext_scheme \<Rightarrow> parse_result completion" where
  "parse parseWithOptions file ctx =
     (let text = body file;
          options = options_of ctx
      in case parse_try parseWithOptions text options of
           Normal r \<Rightarrow> Normal r
         | Throw error \<Rightarrow> parse_catch error)"

subsection \<open>\<^verbatim>\<open>validateLanguageOptions(languageOptions)\<close>\<close>

text \<open>
  The object literal defines this method twice with the same empty body; the second
  definition is the one in effect. A function whose body is empty returns \<^verbatim>\<open>undefined\<close>.
\<close>

definition validateLanguageOptions :: "jsval \<Rightarrow> jsval completion" where
  "validateLanguageOptions options = Normal JUndefined"

subsection \<open>\<^verbatim>\<open>createSourceCode(file, parseResult, context)\<close>\<close>

text \<open>The code units \<^verbatim>\<open>\n\<close>, \<^verbatim>\<open>\r\<close>, U+2028 and U+2029.\<close>

abbreviation LF :: "16 word" where
  "LF \<equiv> 0x000A"

abbreviation CR :: "16 word" where
  "CR \<equiv> 0x000D"

abbreviation LS :: "16 word" where
  "LS \<equiv> 0x2028"

abbreviation PS :: "16 word" where
  "PS \<equiv> 0x2029"

text \<open>The character class \<^verbatim>\<open>[\r\n\u2028\u2029]\<close>.\<close>

definition line_break_class :: "16 word \<Rightarrow> bool" where
  "line_break_class c = (c = CR \<or> c = LF \<or> c = LS \<or> c = PS)"

text \<open>
  The regular expression \<^verbatim>\<open>/\r\n|[\r\n\u2028\u2029]/g\<close> matched at the start of a string:
  the number of code units of the match. The alternatives are tried from left to right,
  \<^verbatim>\<open>\r\n\<close> first.
\<close>

fun match_line_break :: "jsstring \<Rightarrow> nat option" where
  "match_line_break [] = None"
| "match_line_break (c # cs) =
     (if c = CR \<and> take 1 cs = [LF] then Some 2
      else if line_break_class c then Some 1
      else None)"

text \<open>
  The loop of \<^verbatim>\<open>String.prototype.split\<close> with a regular expression and no limit:
  \<open>piece\<close> holds the code units since the end of the last match, the second argument
  is the text that is still to be scanned. Where the expression does not match, the scan
  moves on by one code unit; where it matches, the piece is pushed and the scan goes on
  behind the match. The last piece is pushed at the end of the text.
\<close>

function split_loop :: "jsstring \<Rightarrow> jsstring \<Rightarrow> jsstring list" where
  "split_loop piece [] = [piece]"
| "split_loop piece (c # cs) =
     (case match_line_break (c # cs) of
        None \<Rightarrow> split_loop (piece @ [c]) cs
      | Some n \<Rightarrow> piece # split_loop [] (drop n (c # cs)))"
  by pat_completeness auto
termination
  by (relation "measure (\<lambda>(piece, s). length s)") (auto split: if_splits)

text \<open>
  \<^verbatim>\<open>text.split(/\r\n|[\r\n\u2028\u2029]/g)\<close>. On the empty string the result is one empty
  piece unless the expression matches the empty string.
\<close>

definition split_lines :: "jsstring \<Rightarrow> jsstring list" where
  "split_lines s =
     (if s = [] then (case match_line_break [] of None \<Rightarrow> [[]] | Some _ \<Rightarrow> [])
      else split_loop [] s)"

text \<open>
  \<^verbatim>\<open>String.prototype.slice(start, end)\<close> on integers: a negative index counts from the
  end of the string, and both indices are then brought into the string.
\<close>

definition string_slice :: "jsstring \<Rightarrow> int \<Rightarrow> int \<Rightarrow> jsstring" where
  "string_slice s start fin =
     (let len = int (length s);
          lo = (if start < 0 then max (len + start) 0 else min start len);
          hi = (if fin < 0 then max (len + fin) 0 else min fin len)
      in if hi \<le> lo then [] else take (nat (hi - lo)) (drop (nat lo) s))"

text \<open>
  The source-code object. Its methods close over \<^verbatim>\<open>text\<close> and \<^verbatim>\<open>ast\<close>; in the model
  they take the object. \<^verbatim>\<open>ast\<close> is \<^verbatim>\<open>parseResult.ast\<close>, which a failed parse does not
  have. Of the methods, \<^verbatim>\<open>getText\<close> and \<^verbatim>\<open>getLines\<close> are modelled; \<^verbatim>\<open>getLoc\<close>,
  \<^verbatim>\<open>getRange\<close> and \<^verbatim>\<open>traverse\<close> read the node and the \<^verbatim>\<open>ast\<close> only, never the text.
\<close>

record source_code =
  sc_text :: jsstring
  ast :: "program option"
  lines :: "jsstring list"
  hasBOM :: bool

fun ast_of :: "parse_result \<Rightarrow> program option" where
  "ast_of (ParseOk a v) = Some a"
| "ast_of (ParseFail es) = None"

text \<open>
  \<^verbatim>\<open>typeof file.body === "string" ? file.body : String(file.body || "")\<close>. The conversion
  \<^verbatim>\<open>String\<close> of a value that is not a string is a parameter of the model.
\<close>

definition text_of :: "(jsval \<Rightarrow> jsstring) \<Rightarrow> jsval \<Rightarrow> jsstring" where
  "text_of to_string b =
     (case b of
        JStr s \<Rightarrow> s
      | _ \<Rightarrow> (case js_or b (JStr []) of JStr s \<Rightarrow> s | v \<Rightarrow> to_string v))"

definition createSourceCode ::
    "(jsval \<Rightarrow> jsstring) \<Rightarrow> 'f jsfile_scheme \<Rightarrow> parse_result \<Rightarrow> 'c jscontext_scheme \<Rightarrow>
     source_code" where
  "createSourceCode to_string file parseResult ctx =
     (let text = text_of to_string (body file)
      in \<lparr>sc_text = text,
          ast = ast_of parseResult,
          lines = split_lines text,
          hasBOM = (take 1 text = [0xFEFF])\<rparr>)"

text \<open>
  A node as \<^verbatim>\<open>getText\<close> reads it: its \<^verbatim>\<open>range\<close>, a pair of integers, may be missing, and
  so may the node. \<^verbatim>\<open>beforeCount\<close> and \<^verbatim>\<open>afterCount\<close> are integers or omitted.
\<close>

record node =
  node_range :: "(int \<times> int) option"

text \<open>\<^verbatim>\<open>count || 0\<close>\<close>

definition or_zero :: "int option \<Rightarrow> int" where
  "or_zero count = (case count of None \<Rightarrow> 0 | Some k \<Rightarrow> (if k \<noteq> 0 then k else 0))"

definition getText :: "source_code \<Rightarrow> node option \<Rightarrow> int option \<Rightarrow> int option \<Rightarrow> jsstring" where
  "getText sc nd beforeCount afterCount =
     (case nd of
        None \<Rightarrow> sc_text sc
      | Some n \<Rightarrow>
          (case node_range n of
             None \<Rightarrow> sc_text sc
           | Some (start, fin) \<Rightarrow>
               string_slice (sc_text sc)
                 (max 0 (start - or_zero beforeCount))
                 (min (int (length (sc_text sc))) (fin + or_zero afterCount))))"

definition getLines :: "source_code \<Rightarrow> jsstring list" where
  "getLines sc = split_lines (sc_text sc)"

section \<open>Vocabulary of the properties\<close>

text \<open>
  Two parsers for concrete instances: one that throws a given value and one that returns a
  given value, whatever the text and the options.
\<close>

definition throwing :: "jsval \<Rightarrow> parser" where
  "throwing e text opts = Throw e"

definition returning :: "jsval \<Rightarrow> parser" where
  "returning v text opts = Normal v"

text \<open>
  A parser that returns a given value when it is called for a given year, and throws
  \<^verbatim>\<open>null\<close> for every other year.
\<close>

definition returning_for_year :: "jsval \<Rightarrow> jsval \<Rightarrow> parser" where
  "returning_for_year y v text opts = (if year opts = y then Normal v else Throw JNull)"


text \<open>
  The five forms of a line break, and what it means that a list of lines is the text
  split at its line breaks. This is written from the description of the line breaks, not
  from the code: the text is the lines with one line break between each two of them
  (\<open>join_lines\<close>); no line contains a code unit of a line break, so the text is split at
  every occurrence; and a \<^verbatim>\<open>\r\<close> that is followed at once by \<^verbatim>\<open>\n\<close> is never a break
  of its own, so \<^verbatim>\<open>\r\n\<close> is one break (\<open>well_split\<close>).
\<close>

datatype line_break = Break_LF | Break_CRLF | Break_CR | Break_LS | Break_PS

fun break_units :: "line_break \<Rightarrow> jsstring" where
  "break_units Break_LF = [LF]"
| "break_units Break_CRLF = [CR, LF]"
| "break_units Break_CR = [CR]"
| "break_units Break_LS = [LS]"
| "break_units Break_PS = [PS]"

fun join_lines :: "jsstring list \<Rightarrow> line_break list \<Rightarrow> jsstring" where
  "join_lines (l # ls) (b # bs) = l @ break_units b @ join_lines ls bs"
| "join_lines ls bs = concat ls"

definition no_line_break :: "jsstring \<Rightarrow> bool" where
  "no_line_break l = (\<forall>c \<in> set l. \<not> line_break_class c)"

fun well_split :: "jsstring list \<Rightarrow> line_break list \<Rightarrow> bool" where
  "well_split [l] [] = no_line_break l"
| "well_split (l # l' # ls) (b # bs) =
     (no_line_break l
      \<and> \<not> (b = Break_CR \<and> l' = [] \<and> take 1 bs = [Break_LF])
      \<and> well_split (l' # ls) bs)"
| "well_split ls bs = False"

text \<open>The line breaks of a text from left to right, \<^verbatim>\<open>\r\n\<close> taken as one.\<close>

fun line_breaks :: "jsstring \<Rightarrow> line_break list" where
  "line_breaks [] = []"
| "line_breaks [c] =
     (if c = CR then [Break_CR] else if c = LF then [Break_LF]
      else if c = LS then [Break_LS] else if c = PS then [Break_PS] else [])"
| "line_breaks (c # d # cs) =
     (if c = CR \<and> d = LF then Break_CRLF # line_breaks cs
      else if c = CR then Break_CR # line_breaks (d # cs)
      else if c = LF then Break_LF # line_breaks (d # cs)
      else if c = LS then Break_LS # line_breaks (d # cs)
      else if c = PS then Break_PS # line_breaks (d # cs)
      else line_breaks (d # cs))"

text \<open>
  The code units of \<open>s\<close> from index \<open>i\<close> up to, not including, index \<open>j\<close>, and an
  integer brought into the indices of a string of length \<open>len\<close>.
\<close>

definition substring :: "jsstring \<Rightarrow> nat \<Rightarrow> nat \<Rightarrow> jsstring" where
  "substring s i j = take (j - i) (drop i s)"

definition clamp :: "nat \<Rightarrow> int \<Rightarrow> nat" where
  "clamp len x = nat (max 0 (min (int len) x))"

section \<open>Auxiliary facts\<close>

subsection \<open>Reading properties and building the call\<close>

lemma options_of_defined: "options_of ctx \<noteq> JUndefined \<and> options_of ctx \<noteq> JNull"
  by (cases "languageOptions ctx") (auto simp: options_of_def js_or_def)

lemma get_prop_defined: "v \<noteq> JUndefined \<Longrightarrow> v \<noteq> JNull \<Longrightarrow> get_prop v k = Normal (prop_of v k)"
  by (cases v) simp_all

lemma call_options_defined:
  "call_options (options_of ctx) =
     Normal \<lparr>year = js_or (prop_of (options_of ctx) ''year'') (JNum 2025),
             strictBigInt = (if prop_of (options_of ctx) ''strictBigInt'' \<noteq> JUndefined
                             then prop_of (options_of ctx) ''strictBigInt'' else JBool False),
             mode = ''jsonv'', preserveComments = True, tolerant = False\<rparr>"
  using options_of_defined [of ctx] by (simp add: call_options_def get_prop_defined)

lemma parse_catch_defined:
  "e \<noteq> JUndefined \<Longrightarrow> e \<noteq> JNull \<Longrightarrow>
   parse_catch e = Normal (ParseFail [\<lparr>message = prop_of e ''message'',
      line = js_or (prop_of e ''line'') (JNum 1), column = js_or (prop_of e ''column'') (JNum 1)\<rparr>])"
  by (simp add: parse_catch_def get_prop_defined)

lemma parse_unfold:
  "call_options (options_of ctx) = Normal opts \<Longrightarrow>
   parse parseWithOptions file ctx =
     (case parseWithOptions (body file) opts of
        Normal v \<Rightarrow> Normal (ParseOk \<lparr>node_type = ''Program'', program_body = [],
                       sourceType = ''module'', comments = [], tokens = []\<rparr> v)
      | Throw e \<Rightarrow> parse_catch e)"
  by (simp add: parse_def parse_try_def split: completion.splits)

subsection \<open>Splitting at line breaks\<close>

lemma split_loop_line:
  "no_line_break l \<Longrightarrow> split_loop piece (l @ rest) = split_loop (piece @ l) rest"
proof (induction l arbitrary: piece)
  case Nil
  then show ?case by simp
next
  case (Cons c l)
  then have "\<not> line_break_class c" and "no_line_break l"
    by (simp_all add: no_line_break_def)
  moreover from this have "c \<noteq> CR" by (auto simp: line_break_class_def)
  ultimately show ?case using Cons.IH [of "piece @ [c]"] by simp
qed

lemma split_loop_break:
  "\<not> (b = Break_CR \<and> take 1 rest = [LF]) \<Longrightarrow>
   split_loop piece (break_units b @ rest) = piece # split_loop [] rest"
  by (cases b) (auto simp: line_break_class_def)

lemma well_split_head: "well_split (l # ls) bs \<Longrightarrow> no_line_break l"
  by (cases "(l # ls, bs)" rule: well_split.cases) auto

lemma join_lines_start:
  assumes "well_split (l # ls) bs" and "take 1 (join_lines (l # ls) bs) = [LF]"
  shows "l = [] \<and> take 1 bs = [Break_LF]"
proof (cases l)
  case (Cons c l0)
  with assms(2) have "c = LF" by (cases bs) simp_all
  moreover from assms(1) Cons have "\<not> line_break_class c"
    by (auto dest: well_split_head simp: no_line_break_def)
  ultimately show ?thesis by (simp add: line_break_class_def)
next
  case Nil
  show ?thesis
  proof (cases bs)
    case Nil
    with assms \<open>l = []\<close> show ?thesis by (cases ls) auto
  next
    case (Cons b bs')
    with assms \<open>l = []\<close> show ?thesis by (cases ls; cases b) auto
  qed
qed

lemma split_loop_join:
  "well_split ls bs \<Longrightarrow> split_loop piece (join_lines ls bs) = (piece @ hd ls) # tl ls"
proof (induction ls bs arbitrary: piece rule: well_split.induct)
  case (1 l)
  then show ?case using split_loop_line [of l piece "[]"] by simp
next
  case (2 l l' ls b bs)
  then have l: "no_line_break l" and w: "well_split (l' # ls) bs"
    and b: "\<not> (b = Break_CR \<and> l' = [] \<and> take 1 bs = [Break_LF])"
    by simp_all
  from w b have "\<not> (b = Break_CR \<and> take 1 (join_lines (l' # ls) bs) = [LF])"
    using join_lines_start by blast
  then have "split_loop (piece @ l) (break_units b @ join_lines (l' # ls) bs) =
      (piece @ l) # split_loop [] (join_lines (l' # ls) bs)"
    by (rule split_loop_break)
  with l w show ?case using "2.IH" [of "[]"] split_loop_line [of l piece] by simp
qed simp_all

lemma split_loop_shape: "\<exists>l ls. split_loop piece s = (piece @ l) # ls"
proof (induction piece s rule: split_loop.induct)
  case (1 piece)
  then show ?case by simp
next
  case (2 piece c cs)
  show ?case
  proof (cases "match_line_break (c # cs)")
    case None
    with 2 obtain l ls where "split_loop (piece @ [c]) cs = ((piece @ [c]) @ l) # ls" by blast
    with None have "split_loop piece (c # cs) = (piece @ (c # l)) # ls" by simp
    then show ?thesis by blast
  next
    case (Some n)
    then have "split_loop piece (c # cs) = (piece @ []) # split_loop [] (drop n (c # cs))" by simp
    then show ?thesis by blast
  qed
qed

lemma line_breaks_start:
  assumes "split_loop [] s = [] # ls" and "take 1 (line_breaks s) = [Break_LF]"
  shows "take 1 s = [LF]"
proof (cases s)
  case Nil
  with assms show ?thesis by simp
next
  case (Cons c cs)
  show ?thesis
  proof (cases "line_break_class c")
    case True
    with assms(2) Cons show ?thesis
      by (cases cs) (auto simp: line_break_class_def split: if_splits)
  next
    case False
    then have "match_line_break (c # cs) = None" by (auto simp: line_break_class_def)
    with Cons have "split_loop [] s = split_loop [c] cs" by simp
    with assms(1) show ?thesis using split_loop_shape [of "[c]" cs] by auto
  qed
qed

lemma line_breaks_crlf: "line_breaks (CR # LF # cs) = Break_CRLF # line_breaks cs"
  by simp

lemma line_breaks_single:
  assumes "line_break_class c" and "\<not> (c = CR \<and> take 1 cs = [LF])"
  shows "\<exists>b. break_units b = [c] \<and> (b = Break_CR \<longrightarrow> c = CR)
           \<and> line_breaks (c # cs) = b # line_breaks cs"
proof (cases cs)
  case Nil
  with assms(1) show ?thesis by (auto simp: line_break_class_def)
next
  case (Cons d ds)
  with assms show ?thesis by (auto simp: line_break_class_def)
qed

lemma line_breaks_plain: "\<not> line_break_class c \<Longrightarrow> line_breaks (c # cs) = line_breaks cs"
  by (cases cs) (auto simp: line_break_class_def)

lemma split_loop_well_split:
  "no_line_break piece \<Longrightarrow>
   well_split (split_loop piece s) (line_breaks s)
   \<and> join_lines (split_loop piece s) (line_breaks s) = piece @ s"
proof (induction piece s rule: split_loop.induct)
  case (1 piece)
  then show ?case by simp
next
  case (2 piece c cs)
  consider (crlf) "c = CR" "take 1 cs = [LF]"
    | (single) "line_break_class c" "\<not> (c = CR \<and> take 1 cs = [LF])"
    | (plain) "\<not> line_break_class c"
    by blast
  then show ?case
  proof cases
    case crlf
    then obtain ds where cs: "cs = LF # ds" by (cases cs) auto
    from crlf have m: "match_line_break (c # cs) = Some 2" by simp
    from "2.IH"(2) [OF m] cs have ih: "well_split (split_loop [] ds) (line_breaks ds)"
      "join_lines (split_loop [] ds) (line_breaks ds) = ds"
      by (simp_all add: no_line_break_def)
    obtain l' ls where shape: "split_loop [] ds = l' # ls"
      using split_loop_shape [of "[]" ds] by auto
    from m cs have "split_loop piece (c # cs) = piece # l' # ls" by (simp add: shape)
    moreover from crlf cs have "line_breaks (c # cs) = Break_CRLF # line_breaks ds"
      by (simp only: line_breaks_crlf)
    ultimately show ?thesis using ih shape crlf(1) cs "2.prems" by simp
  next
    case single
    then have m: "match_line_break (c # cs) = Some 1" by simp
    from "2.IH"(2) [OF m] have ih: "well_split (split_loop [] cs) (line_breaks cs)"
      "join_lines (split_loop [] cs) (line_breaks cs) = cs"
      by (simp_all add: no_line_break_def)
    obtain l' ls where shape: "split_loop [] cs = l' # ls"
      using split_loop_shape [of "[]" cs] by auto
    from line_breaks_single [OF single] obtain b where b: "break_units b = [c]"
      "b = Break_CR \<longrightarrow> c = CR" "line_breaks (c # cs) = b # line_breaks cs"
      by blast
    have "\<not> (b = Break_CR \<and> l' = [] \<and> take 1 (line_breaks cs) = [Break_LF])"
    proof
      assume a: "b = Break_CR \<and> l' = [] \<and> take 1 (line_breaks cs) = [Break_LF]"
      with shape have "take 1 cs = [LF]" by (intro line_breaks_start) auto
      with a b(2) single(2) show False by simp
    qed
    moreover from m have "split_loop piece (c # cs) = piece # l' # ls" by (simp add: shape)
    ultimately show ?thesis using ih shape b(1,3) "2.prems" by simp
  next
    case plain
    then have m: "match_line_break (c # cs) = None" by (auto simp: line_break_class_def)
    from plain "2.prems" have "no_line_break (piece @ [c])"
      by (simp add: no_line_break_def)
    from "2.IH"(1) [OF m this] m plain show ?thesis
      by (simp add: line_breaks_plain)
  qed
qed

lemma split_lines_loop: "split_lines s = split_loop [] s"
  by (cases s) (simp_all add: split_lines_def)

lemma split_lines_characterised:
  "(split_lines s = ls) = (\<exists>bs. well_split ls bs \<and> join_lines ls bs = s)"
proof
  assume "split_lines s = ls"
  then show "\<exists>bs. well_split ls bs \<and> join_lines ls bs = s"
    using split_loop_well_split [of "[]" s] by (auto simp: split_lines_loop no_line_break_def)
next
  assume "\<exists>bs. well_split ls bs \<and> join_lines ls bs = s"
  then obtain bs where w: "well_split ls bs" and j: "join_lines ls bs = s" by blast
  from w have "ls \<noteq> []" by auto
  with split_loop_join [OF w, of "[]"] j show "split_lines s = ls"
    by (simp add: split_lines_loop)
qed

subsection \<open>Slices\<close>

lemma string_slice_substring:
  "\<exists>i j. i \<le> j \<and> j \<le> length s \<and> string_slice s a b = substring s i j"
proof -
  define len where "len = int (length s)"
  define lo where "lo = (if a < 0 then max (len + a) 0 else min a len)"
  define hi where "hi = (if b < 0 then max (len + b) 0 else min b len)"
  have bounds: "0 \<le> lo" "lo \<le> len" "0 \<le> hi" "hi \<le> len"
    by (auto simp: lo_def hi_def len_def)
  show ?thesis
  proof (cases "hi \<le> lo")
    case True
    then have "string_slice s a b = substring s 0 0"
      unfolding string_slice_def substring_def Let_def lo_def hi_def len_def by simp
    then show ?thesis by (intro exI [of _ 0]) simp
  next
    case False
    with bounds have "string_slice s a b = substring s (nat lo) (nat hi)"
      unfolding string_slice_def substring_def Let_def lo_def hi_def len_def
      by (simp add: nat_diff_distrib)
    moreover from False bounds have "nat lo \<le> nat hi" "nat hi \<le> length s"
      by (simp_all add: len_def)
    ultimately show ?thesis by blast
  qed
qed

lemma string_slice_clamped:
  assumes "0 \<le> a" and "0 \<le> b"
  shows "string_slice s a b = substring s (clamp (length s) a) (clamp (length s) b)"
  using assms by (auto simp: string_slice_def substring_def clamp_def Let_def nat_diff_distrib min_def max_def)

lemma substring_whole: "substring s 0 (length s) = s"
  by (simp add: substring_def)

lemma clamp_max: "clamp n (max 0 x) = clamp n x"
  by (simp add: clamp_def min_def max_def)

lemma string_slice_from_end:
  assumes "0 \<le> a" and "b < 0"
  shows "string_slice s a b =
    substring s (clamp (length s) a) (clamp (length s) (int (length s) + b))"
  using assms
  by (auto simp: string_slice_def substring_def clamp_def Let_def nat_diff_distrib min_def max_def)

subsection \<open>The source-code object\<close>

lemma createSourceCode_fields:
  "sc_text (createSourceCode to_string file parseResult ctx) = text_of to_string (body file)"
  "lines (createSourceCode to_string file parseResult ctx) =
     split_lines (text_of to_string (body file))"
  by (simp_all add: createSourceCode_def Let_def)

section \<open>The claims\<close>

subsection \<open>\<^verbatim>\<open>parse\<close> and what the parser throws\<close>

text \<open>
  Claim C1, as it is stated, fails: when the parser throws \<^verbatim>\<open>null\<close>, the \<^verbatim>\<open>catch\<close> block
  reads \<^verbatim>\<open>error.message\<close> of \<^verbatim>\<open>null\<close>, and the \<^verbatim>\<open>TypeError\<close> of that read leaves
  \<^verbatim>\<open>parse\<close>: no result is returned.
\<close>

theorem parse_thrown_null_escapes:
  "parse (throwing JNull) \<lparr>body = JStr (ustr ''{ a: }'')\<rparr> \<lparr>languageOptions = JUndefined\<rparr>
     = Throw TypeError"
  by (simp add: parse_def parse_try_def parse_catch_def call_options_def options_of_def
      js_or_def throwing_def)

text \<open>
  Claim C1, amended: for every file and context, \<^verbatim>\<open>parse\<close> builds the options of its one
  call of the parser without a fault, and when that call throws neither \<^verbatim>\<open>null\<close> nor
  \<^verbatim>\<open>undefined\<close>, \<^verbatim>\<open>parse\<close> returns a result: one with \<^verbatim>\<open>ok: true\<close> when the call returns,
  and \<^verbatim>\<open>{ok: false, errors}\<close> when the call throws any other value, an \<^verbatim>\<open>Error\<close> object or
  not. What the parser would do on another text or under other options does not matter.
\<close>

theorem parse_returns_result:
  "\<exists>opts. call_options (options_of ctx) = Normal opts
     \<and> (parseWithOptions (body file) opts \<noteq> Throw JNull
          \<and> parseWithOptions (body file) opts \<noteq> Throw JUndefined
        \<longrightarrow> (\<exists>r. parse parseWithOptions file ctx = Normal r
               \<and> (case parseWithOptions (body file) opts of
                     Normal v \<Rightarrow> ok r
                   | Throw e \<Rightarrow> (\<exists>errs. r = ParseFail errs))))"
proof -
  obtain opts where o: "call_options (options_of ctx) = Normal opts"
    by (simp add: call_options_defined)
  have "\<exists>r. parse parseWithOptions file ctx = Normal r
           \<and> (case parseWithOptions (body file) opts of
                 Normal v \<Rightarrow> ok r
               | Throw e \<Rightarrow> (\<exists>errs. r = ParseFail errs))"
    if n: "parseWithOptions (body file) opts \<noteq> Throw JNull"
      and u: "parseWithOptions (body file) opts \<noteq> Throw JUndefined"
  proof (cases "parseWithOptions (body file) opts")
    case (Normal v)
    with o show ?thesis by (simp add: parse_unfold)
  next
    case (Throw e)
    with n u have "e \<noteq> JNull" "e \<noteq> JUndefined" by auto
    with o Throw show ?thesis by (simp add: parse_unfold parse_catch_defined)
  qed
  with o show ?thesis by blast
qed

text \<open>
  Two instances. A parser that throws a string, which is not an \<^verbatim>\<open>Error\<close> object: the
  result is one error at line 1, column 1. And a parser that returns for the year 2025
  and throws \<^verbatim>\<open>null\<close> for every other year: the call is made with the year 2025, so
  \<^verbatim>\<open>parse\<close> returns.
\<close>

theorem parse_returns_result_witness:
  "call_options (options_of \<lparr>languageOptions = JUndefined\<rparr>) =
     Normal \<lparr>year = JNum 2025, strictBigInt = JBool False, mode = ''jsonv'',
             preserveComments = True, tolerant = False\<rparr>
   \<and> throwing (JStr (ustr ''boom'')) (body \<lparr>body = JStr (ustr ''{ a: }'')\<rparr>)
       \<lparr>year = JNum 2025, strictBigInt = JBool False, mode = ''jsonv'',
         preserveComments = True, tolerant = False\<rparr> \<noteq> Throw JNull
   \<and> throwing (JStr (ustr ''boom'')) (body \<lparr>body = JStr (ustr ''{ a: }'')\<rparr>)
       \<lparr>year = JNum 2025, strictBigInt = JBool False, mode = ''jsonv'',
         preserveComments = True, tolerant = False\<rparr> \<noteq> Throw JUndefined
   \<and> parse (throwing (JStr (ustr ''boom''))) \<lparr>body = JStr (ustr ''{ a: }'')\<rparr>
       \<lparr>languageOptions = JUndefined\<rparr> =
       Normal (ParseFail [\<lparr>message = JUndefined, line = JNum 1, column = JNum 1\<rparr>])
   \<and> returning_for_year (JNum 2025) (JObj []) (body \<lparr>body = JStr (ustr ''{}'')\<rparr>)
       \<lparr>year = JNum 2025, strictBigInt = JBool False, mode = ''jsonv'',
         preserveComments = True, tolerant = False\<rparr> = Normal (JObj [])
   \<and> returning_for_year (JNum 2025) (JObj []) (body \<lparr>body = JStr (ustr ''{}'')\<rparr>)
       \<lparr>year = JNum 1999, strictBigInt = JBool False, mode = ''jsonv'',
         preserveComments = True, tolerant = False\<rparr> = Throw JNull
   \<and> ok (ParseOk \<lparr>node_type = ''Program'', program_body = [], sourceType = ''module'',
                    comments = [], tokens = []\<rparr> (JObj []))
   \<and> parse (returning_for_year (JNum 2025) (JObj [])) \<lparr>body = JStr (ustr ''{}'')\<rparr>
       \<lparr>languageOptions = JUndefined\<rparr> =
       Normal (ParseOk \<lparr>node_type = ''Program'', program_body = [], sourceType = ''module'',
                        comments = [], tokens = []\<rparr> (JObj []))"
proof -
  let ?ctx = "\<lparr>languageOptions = JUndefined\<rparr>"
  have o: "call_options (options_of ?ctx) =
     Normal \<lparr>year = JNum 2025, strictBigInt = JBool False, mode = ''jsonv'',
             preserveComments = True, tolerant = False\<rparr>"
    by (simp add: call_options_def options_of_def js_or_def)
  from parse_returns_result [of ?ctx "throwing (JStr (ustr ''boom''))"
      "\<lparr>body = JStr (ustr ''{ a: }'')\<rparr>"] o
  have "\<exists>r. parse (throwing (JStr (ustr ''boom''))) \<lparr>body = JStr (ustr ''{ a: }'')\<rparr> ?ctx =
      Normal r \<and> (\<exists>errs. r = ParseFail errs)"
    by (simp add: throwing_def)
  moreover from parse_returns_result [of ?ctx "returning_for_year (JNum 2025) (JObj [])"
      "\<lparr>body = JStr (ustr ''{}'')\<rparr>"] o
  have "\<exists>r. parse (returning_for_year (JNum 2025) (JObj [])) \<lparr>body = JStr (ustr ''{}'')\<rparr> ?ctx =
      Normal r \<and> ok r"
    by (simp add: returning_for_year_def)
  ultimately show ?thesis using o
    by (simp add: parse_unfold parse_catch_defined throwing_def returning_for_year_def js_or_def)
qed



subsection \<open>The options of the call\<close>

text \<open>
  Claim C3, as it is stated, fails for \<^verbatim>\<open>preserveComments\<close>: with no language options at
  all, the options of the call are not the documented defaults, since \<^verbatim>\<open>parse\<close> passes
  \<^verbatim>\<open>preserveComments: true\<close>.
\<close>

theorem parse_call_preserves_comments:
  "call_options (options_of \<lparr>languageOptions = JUndefined\<rparr>) =
     Normal \<lparr>year = JNum 2025, strictBigInt = JBool False, mode = ''jsonv'',
             preserveComments = True, tolerant = False\<rparr>
   \<and> call_options (options_of \<lparr>languageOptions = JUndefined\<rparr>) \<noteq>
     Normal \<lparr>year = JNum 2025, strictBigInt = JBool False, mode = ''jsonv'',
             preserveComments = False, tolerant = False\<rparr>"
  by (simp add: call_options_def options_of_def js_or_def)

text \<open>
  Claim C3, amended: for every call of \<^verbatim>\<open>parse\<close>, the parser is invoked once, on
  \<^verbatim>\<open>file.body\<close> and an options object in which \<^verbatim>\<open>year\<close> is 2025 when the language options
  omit it (or give a falsy one), \<^verbatim>\<open>strictBigInt\<close> is \<^verbatim>\<open>false\<close> when they omit it, and, whatever
  the language options are, \<^verbatim>\<open>mode\<close> is \<^verbatim>\<open>"jsonv"\<close>, \<^verbatim>\<open>preserveComments\<close> is \<^verbatim>\<open>true\<close> and
  \<^verbatim>\<open>tolerant\<close> is \<^verbatim>\<open>false\<close>. An option is omitted when the options object, which is
  \<^verbatim>\<open>context.languageOptions\<close> or \<^verbatim>\<open>{}\<close> in its absence, has no such property.
\<close>

theorem parse_call_defaults:
  "\<exists>opts. call_options (options_of ctx) = Normal opts
     \<and> parse parseWithOptions file ctx =
         (case parseWithOptions (body file) opts of
            Normal v \<Rightarrow> Normal (ParseOk \<lparr>node_type = ''Program'', program_body = [],
                           sourceType = ''module'', comments = [], tokens = []\<rparr> v)
          | Throw e \<Rightarrow> parse_catch e)
     \<and> year opts = js_or (prop_of (options_of ctx) ''year'') (JNum 2025)
     \<and> (prop_of (options_of ctx) ''year'' = JUndefined \<longrightarrow> year opts = JNum 2025)
     \<and> (prop_of (options_of ctx) ''strictBigInt'' = JUndefined \<longrightarrow>
          strictBigInt opts = JBool False)
     \<and> (prop_of (options_of ctx) ''strictBigInt'' \<noteq> JUndefined \<longrightarrow>
          strictBigInt opts = prop_of (options_of ctx) ''strictBigInt'')
     \<and> mode opts = ''jsonv''
     \<and> preserveComments opts = True
     \<and> tolerant opts = False"
proof -
  define opts where "opts = \<lparr>year = js_or (prop_of (options_of ctx) ''year'') (JNum 2025),
     strictBigInt = (if prop_of (options_of ctx) ''strictBigInt'' \<noteq> JUndefined
                     then prop_of (options_of ctx) ''strictBigInt'' else JBool False),
     mode = ''jsonv'', preserveComments = True, tolerant = False\<rparr>"
  have o: "call_options (options_of ctx) = Normal opts"
    by (simp add: call_options_defined opts_def)
  then have "parse parseWithOptions file ctx =
         (case parseWithOptions (body file) opts of
            Normal v \<Rightarrow> Normal (ParseOk \<lparr>node_type = ''Program'', program_body = [],
                           sourceType = ''module'', comments = [], tokens = []\<rparr> v)
          | Throw e \<Rightarrow> parse_catch e)"
    by (rule parse_unfold)
  with o show ?thesis
    by (intro exI [of _ opts]) (simp add: opts_def js_or_def)
qed

text \<open>
  Two instances: language options that give neither \<^verbatim>\<open>year\<close> nor \<^verbatim>\<open>strictBigInt\<close> (but a
  \<^verbatim>\<open>mode\<close>, which is not read), and language options that give \<^verbatim>\<open>strictBigInt\<close> only.
\<close>

theorem parse_call_defaults_witness:
  "prop_of (options_of \<lparr>languageOptions = JObj [(''mode'', JStr (ustr ''json5''))]\<rparr>) ''year''
     = JUndefined
   \<and> prop_of (options_of \<lparr>languageOptions = JObj [(''mode'', JStr (ustr ''json5''))]\<rparr>)
       ''strictBigInt'' = JUndefined
   \<and> call_options (options_of \<lparr>languageOptions = JObj [(''mode'', JStr (ustr ''json5''))]\<rparr>) =
       Normal \<lparr>year = JNum 2025, strictBigInt = JBool False, mode = ''jsonv'',
               preserveComments = True, tolerant = False\<rparr>
   \<and> prop_of (options_of \<lparr>languageOptions = JObj [(''strictBigInt'', JBool True)]\<rparr>)
       ''strictBigInt'' \<noteq> JUndefined
   \<and> call_options (options_of \<lparr>languageOptions = JObj [(''strictBigInt'', JBool True)]\<rparr>) =
       Normal \<lparr>year = JNum 2025, strictBigInt = JBool True, mode = ''jsonv'',
               preserveComments = True, tolerant = False\<rparr>"
  using parse_call_defaults [of "\<lparr>languageOptions = JObj [(''mode'', JStr (ustr ''json5''))]\<rparr>"
      "returning JNull" "\<lparr>body = JStr []\<rparr>"]
    parse_call_defaults [of "\<lparr>languageOptions = JObj [(''strictBigInt'', JBool True)]\<rparr>"
      "returning JNull" "\<lparr>body = JStr []\<rparr>"]
  by (auto simp: options_of_def js_or_def)

subsection \<open>Determinism\<close>

text \<open>
  Claim C4: two calls of \<^verbatim>\<open>parse\<close> with the same \<^verbatim>\<open>file.body\<close> and the same
  \<^verbatim>\<open>context.languageOptions\<close> return identical results. \<^verbatim>\<open>parse\<close> keeps no state and reads
  nothing else of the file and the context, which may differ in any other field; and of
  the parser it uses nothing but the outcome of the one call that it makes, on the body
  and the options built from the language options. The two parsers below are the parser
  as it behaves during the first and during the second call: the external parser is
  deterministic, as its specification says, exactly when it has the same outcome in both
  on that one call, and the two may differ on every other text and under all other
  options.
\<close>

theorem parse_deterministic:
  assumes "body file1 = body file2"
    and "languageOptions ctx1 = languageOptions ctx2"
    and "call_options (options_of ctx1) = Normal opts"
    and "parser1 (body file1) opts = parser2 (body file1) opts"
  shows "parse parser1 file1 ctx1 = parse parser2 file2 ctx2"
proof -
  from assms(2) have "options_of ctx2 = options_of ctx1"
    by (simp add: options_of_def)
  with assms(3) have "call_options (options_of ctx2) = Normal opts"
    by simp
  then have "parse parser2 file2 ctx2 =
      (case parser2 (body file2) opts of
         Normal v \<Rightarrow> Normal (ParseOk \<lparr>node_type = ''Program'', program_body = [],
                        sourceType = ''module'', comments = [], tokens = []\<rparr> v)
       | Throw e \<Rightarrow> parse_catch e)"
    by (rule parse_unfold)
  moreover from assms(3) have "parse parser1 file1 ctx1 =
      (case parser1 (body file1) opts of
         Normal v \<Rightarrow> Normal (ParseOk \<lparr>node_type = ''Program'', program_body = [],
                        sourceType = ''module'', comments = [], tokens = []\<rparr> v)
       | Throw e \<Rightarrow> parse_catch e)"
    by (rule parse_unfold)
  ultimately show ?thesis using assms(1,4) by simp
qed

text \<open>
  An instance: two files and two contexts that differ in a further field, and two
  parsers that agree on the call for the year 2020 and differ for every other year.
\<close>

theorem parse_deterministic_witness:
  "body \<lparr>body = JStr (ustr ''{ a: 1 }''), \<dots> = ''a.jsonv''\<rparr>
     = body \<lparr>body = JStr (ustr ''{ a: 1 }''), \<dots> = ''b.jsonv''\<rparr>
   \<and> languageOptions \<lparr>languageOptions = JObj [(''year'', JNum 2020)], \<dots> = True\<rparr>
     = languageOptions \<lparr>languageOptions = JObj [(''year'', JNum 2020)], \<dots> = False\<rparr>
   \<and> call_options (options_of \<lparr>languageOptions = JObj [(''year'', JNum 2020)], \<dots> = True\<rparr>) =
       Normal \<lparr>year = JNum 2020, strictBigInt = JBool False, mode = ''jsonv'',
               preserveComments = True, tolerant = False\<rparr>
   \<and> returning (JObj [(''a'', JNum 1)])
        (body \<lparr>body = JStr (ustr ''{ a: 1 }''), \<dots> = ''a.jsonv''\<rparr>)
        \<lparr>year = JNum 2020, strictBigInt = JBool False, mode = ''jsonv'',
          preserveComments = True, tolerant = False\<rparr>
     = returning_for_year (JNum 2020) (JObj [(''a'', JNum 1)])
        (body \<lparr>body = JStr (ustr ''{ a: 1 }''), \<dots> = ''a.jsonv''\<rparr>)
        \<lparr>year = JNum 2020, strictBigInt = JBool False, mode = ''jsonv'',
          preserveComments = True, tolerant = False\<rparr>
   \<and> parse (returning (JObj [(''a'', JNum 1)]))
        \<lparr>body = JStr (ustr ''{ a: 1 }''), \<dots> = ''a.jsonv''\<rparr>
        \<lparr>languageOptions = JObj [(''year'', JNum 2020)], \<dots> = True\<rparr>
     = parse (returning_for_year (JNum 2020) (JObj [(''a'', JNum 1)]))
        \<lparr>body = JStr (ustr ''{ a: 1 }''), \<dots> = ''b.jsonv''\<rparr>
        \<lparr>languageOptions = JObj [(''year'', JNum 2020)], \<dots> = False\<rparr>"
proof -
  let ?opts = "\<lparr>year = JNum 2020, strictBigInt = JBool False, mode = ''jsonv'',
               preserveComments = True, tolerant = False\<rparr>"
  let ?f1 = "\<lparr>body = JStr (ustr ''{ a: 1 }''), \<dots> = ''a.jsonv''\<rparr>"
  let ?f2 = "\<lparr>body = JStr (ustr ''{ a: 1 }''), \<dots> = ''b.jsonv''\<rparr>"
  let ?c1 = "\<lparr>languageOptions = JObj [(''year'', JNum 2020)], \<dots> = True\<rparr>"
  let ?c2 = "\<lparr>languageOptions = JObj [(''year'', JNum 2020)], \<dots> = False\<rparr>"
  have b: "body ?f1 = body ?f2" and l: "languageOptions ?c1 = languageOptions ?c2"
    by simp_all
  have o: "call_options (options_of ?c1) = Normal ?opts"
    by (simp add: call_options_def options_of_def js_or_def)
  have p: "returning (JObj [(''a'', JNum 1)]) (body ?f1) ?opts =
      returning_for_year (JNum 2020) (JObj [(''a'', JNum 1)]) (body ?f1) ?opts"
    by (simp add: returning_def returning_for_year_def)
  from parse_deterministic [of ?f1 ?f2 ?c1 ?c2 ?opts "returning (JObj [(''a'', JNum 1)])"
      "returning_for_year (JNum 2020) (JObj [(''a'', JNum 1)])", OF b l o p] b l o p
  show ?thesis by simp
qed

subsection \<open>A successful parse\<close>

text \<open>
  Claim C8: whenever the parser returns a value, \<^verbatim>\<open>parse\<close> returns \<^verbatim>\<open>ok: true\<close> with one and
  the same \<^verbatim>\<open>ast\<close>, a \<^verbatim>\<open>Program\<close> node with an empty body, no comments, no tokens and the
  source type \<^verbatim>\<open>module\<close>; the parsed value is the \<^verbatim>\<open>jsonvValue\<close> of the result and nothing
  of it is in the \<^verbatim>\<open>ast\<close>.
\<close>

theorem parse_success_ast:
  assumes "call_options (options_of ctx) = Normal opts"
    and "parseWithOptions (body file) opts = Normal v"
  shows "parse parseWithOptions file ctx =
           Normal (ParseOk \<lparr>node_type = ''Program'', program_body = [],
                     sourceType = ''module'', comments = [], tokens = []\<rparr> v)"
  using assms by (simp add: parse_unfold)

theorem parse_success_ast_witness:
  "call_options (options_of \<lparr>languageOptions = JObj [(''year'', JNum 2020)]\<rparr>) =
     Normal \<lparr>year = JNum 2020, strictBigInt = JBool False, mode = ''jsonv'',
             preserveComments = True, tolerant = False\<rparr>
   \<and> returning (JObj [(''port'', JNum 8080)]) (body \<lparr>body = JStr (ustr ''{ port: 8080 }'')\<rparr>)
       \<lparr>year = JNum 2020, strictBigInt = JBool False, mode = ''jsonv'',
         preserveComments = True, tolerant = False\<rparr> = Normal (JObj [(''port'', JNum 8080)])
   \<and> parse (returning (JObj [(''port'', JNum 8080)])) \<lparr>body = JStr (ustr ''{ port: 8080 }'')\<rparr>
       \<lparr>languageOptions = JObj [(''year'', JNum 2020)]\<rparr> =
       Normal (ParseOk \<lparr>node_type = ''Program'', program_body = [],
                 sourceType = ''module'', comments = [], tokens = []\<rparr>
               (JObj [(''port'', JNum 8080)]))"
proof -
  have o: "call_options (options_of \<lparr>languageOptions = JObj [(''year'', JNum 2020)]\<rparr>) =
     Normal \<lparr>year = JNum 2020, strictBigInt = JBool False, mode = ''jsonv'',
             preserveComments = True, tolerant = False\<rparr>"
    by (simp add: call_options_def options_of_def js_or_def)
  have r: "returning (JObj [(''port'', JNum 8080)]) (body \<lparr>body = JStr (ustr ''{ port: 8080 }'')\<rparr>)
       \<lparr>year = JNum 2020, strictBigInt = JBool False, mode = ''jsonv'',
         preserveComments = True, tolerant = False\<rparr> = Normal (JObj [(''port'', JNum 8080)])"
    by (simp add: returning_def)
  from parse_success_ast [of "\<lparr>languageOptions = JObj [(''year'', JNum 2020)]\<rparr>" _
      "returning (JObj [(''port'', JNum 8080)])" "\<lparr>body = JStr (ustr ''{ port: 8080 }'')\<rparr>", OF o r] o r
  show ?thesis by simp
qed

subsection \<open>Language options are not validated\<close>

text \<open>
  Claim C10: \<^verbatim>\<open>validateLanguageOptions\<close> checks nothing: for every value of the language
  options, of whatever type, it completes without throwing and returns \<^verbatim>\<open>undefined\<close>.
\<close>

theorem validate_accepts_all: "validateLanguageOptions options = Normal JUndefined"
  by (simp add: validateLanguageOptions_def)

subsection \<open>The lines of the source code\<close>

text \<open>
  Claim C5: the \<^verbatim>\<open>lines\<close> of the source-code object, which \<^verbatim>\<open>getLines\<close> returns as well, are
  the text split at its line breaks, and nothing else is: a list of lines is the \<^verbatim>\<open>lines\<close>
  array exactly when the text is these lines with one of the five line breaks \<^verbatim>\<open>\n\<close>,
  \<^verbatim>\<open>\r\n\<close>, \<^verbatim>\<open>\r\<close>, U+2028, U+2029 between each two of them, no line contains a code unit
  of a line break, and no \<^verbatim>\<open>\r\<close> that is followed at once by \<^verbatim>\<open>\n\<close> is a break of its own.
  The text is \<^verbatim>\<open>file.body\<close> when that is a string.
\<close>

theorem lines_split_at_line_breaks:
  "getLines (createSourceCode to_string file parseResult ctx) =
     lines (createSourceCode to_string file parseResult ctx)
   \<and> (\<forall>ls. (lines (createSourceCode to_string file parseResult ctx) = ls) =
          (\<exists>bs. well_split ls bs
             \<and> join_lines ls bs = sc_text (createSourceCode to_string file parseResult ctx)))
   \<and> (\<forall>s. body file = JStr s \<longrightarrow>
          sc_text (createSourceCode to_string file parseResult ctx) = s)"
  by (simp add: createSourceCode_fields getLines_def split_lines_characterised)
    (simp add: text_of_def)

text \<open>
  An instance: the text \<^verbatim>\<open>a\r\nb\<close> followed by U+2028 has the three lines \<^verbatim>\<open>a\<close>, \<^verbatim>\<open>b\<close> and
  the empty line.
\<close>

theorem lines_split_at_line_breaks_witness:
  "body \<lparr>body = JStr [0x61, CR, LF, 0x62, LS]\<rparr> = JStr [0x61, CR, LF, 0x62, LS]
   \<and> lines (createSourceCode (\<lambda>v. []) \<lparr>body = JStr [0x61, CR, LF, 0x62, LS]\<rparr> (ParseFail [])
        \<lparr>languageOptions = JUndefined\<rparr>) = [[0x61], [0x62], []]
   \<and> getLines (createSourceCode (\<lambda>v. []) \<lparr>body = JStr [0x61, CR, LF, 0x62, LS]\<rparr> (ParseFail [])
        \<lparr>languageOptions = JUndefined\<rparr>) = [[0x61], [0x62], []]
   \<and> (\<exists>bs. well_split [[0x61], [0x62], []] bs
         \<and> join_lines [[0x61], [0x62], []] bs = [0x61, CR, LF, 0x62, LS])"
proof -
  let ?sc = "createSourceCode (\<lambda>v. []) \<lparr>body = JStr [0x61, CR, LF, 0x62, LS]\<rparr> (ParseFail [])
        \<lparr>languageOptions = JUndefined\<rparr>"
  have l: "lines ?sc = [[0x61], [0x62], []]"
    by (simp add: createSourceCode_fields text_of_def split_lines_def line_break_class_def)
  have t: "sc_text ?sc = [0x61, CR, LF, 0x62, LS]"
    by (simp add: createSourceCode_fields text_of_def)
  from lines_split_at_line_breaks [of "\<lambda>v. []" "\<lparr>body = JStr [0x61, CR, LF, 0x62, LS]\<rparr>"
      "ParseFail []" "\<lparr>languageOptions = JUndefined\<rparr>"]
  have "getLines ?sc = lines ?sc"
    and "\<exists>bs. well_split (lines ?sc) bs \<and> join_lines (lines ?sc) bs = sc_text ?sc"
    by blast+
  with l t show ?thesis by simp
qed

subsection \<open>The text of a node\<close>

text \<open>
  Claim C9, as it is stated, fails: the end of the slice is bounded by the length of the
  text only. When \<^verbatim>\<open>end + afterCount\<close> is negative, \<^verbatim>\<open>slice\<close> counts it from the end of
  the text. For the text \<^verbatim>\<open>hello\<close>, the range \<^verbatim>\<open>[0, 3]\<close> and \<^verbatim>\<open>afterCount = -4\<close> the result is
  \<^verbatim>\<open>hell\<close>, where bounds clamped to the text give the empty string.
\<close>

theorem getText_negative_end:
  "getText \<lparr>sc_text = ustr ''hello'', ast = None, lines = [ustr ''hello''], hasBOM = False\<rparr>
     (Some \<lparr>node_range = Some (0, 3)\<rparr>) None (Some (- 4)) = ustr ''hell''
   \<and> substring (ustr ''hello'') (clamp 5 (0 - or_zero None)) (clamp 5 (3 + or_zero (Some (- 4))))
     = []"
  by (simp add: getText_def string_slice_def or_zero_def ustr_def substring_def clamp_def)

text \<open>
  Claim C9, amended: for every node and every \<^verbatim>\<open>beforeCount\<close> and \<^verbatim>\<open>afterCount\<close>,
  \<^verbatim>\<open>getText\<close> returns a contiguous substring of the text, between two indices of the
  text. With no node, or a node with no range, it returns the whole text. Otherwise it
  is the slice of the text from \<^verbatim>\<open>start - beforeCount\<close> clamped below at 0, which is not
  negative, to \<^verbatim>\<open>end + afterCount\<close> clamped above at the length of the text, which does
  not exceed the length. When \<^verbatim>\<open>end + afterCount\<close> is not negative, that is the substring
  between the two, each clamped to the interval from 0 to the length of the text; when
  it is negative, the end is counted back from the end of the text instead.
\<close>

theorem getText_substring:
  "(\<exists>i j. i \<le> j \<and> j \<le> length (sc_text sc)
      \<and> getText sc nd beforeCount afterCount = substring (sc_text sc) i j)
   \<and> getText sc None beforeCount afterCount = sc_text sc
   \<and> getText sc (Some \<lparr>node_range = None\<rparr>) beforeCount afterCount = sc_text sc
   \<and> getText sc (Some \<lparr>node_range = Some (start, fin)\<rparr>) beforeCount afterCount =
        string_slice (sc_text sc)
          (max 0 (start - or_zero beforeCount))
          (min (int (length (sc_text sc))) (fin + or_zero afterCount))
   \<and> 0 \<le> max 0 (start - or_zero beforeCount)
   \<and> min (int (length (sc_text sc))) (fin + or_zero afterCount) \<le> int (length (sc_text sc))
   \<and> (0 \<le> fin + or_zero afterCount \<longrightarrow>
        getText sc (Some \<lparr>node_range = Some (start, fin)\<rparr>) beforeCount afterCount =
          substring (sc_text sc)
            (clamp (length (sc_text sc)) (start - or_zero beforeCount))
            (clamp (length (sc_text sc)) (fin + or_zero afterCount)))
   \<and> (fin + or_zero afterCount < 0 \<longrightarrow>
        getText sc (Some \<lparr>node_range = Some (start, fin)\<rparr>) beforeCount afterCount =
          substring (sc_text sc)
            (clamp (length (sc_text sc)) (start - or_zero beforeCount))
            (clamp (length (sc_text sc))
               (int (length (sc_text sc)) + (fin + or_zero afterCount))))"
proof -
  let ?t = "sc_text sc"
  let ?g = "getText sc (Some \<lparr>node_range = Some (start, fin)\<rparr>) beforeCount afterCount"
  let ?a = "max 0 (start - or_zero beforeCount)"
  let ?b = "min (int (length ?t)) (fin + or_zero afterCount)"
  have sub: "\<exists>i j. i \<le> j \<and> j \<le> length ?t
      \<and> getText sc nd beforeCount afterCount = substring ?t i j"
  proof (cases "\<exists>n s e. nd = Some n \<and> node_range n = Some (s, e)")
    case True
    then show ?thesis using string_slice_substring by (auto simp: getText_def)
  next
    case False
    then have "getText sc nd beforeCount afterCount = substring ?t 0 (length ?t)"
      by (auto simp: getText_def substring_whole split: option.splits)
    then show ?thesis by blast
  qed
  have none: "getText sc None beforeCount afterCount = ?t"
    "getText sc (Some \<lparr>node_range = None\<rparr>) beforeCount afterCount = ?t"
    by (simp_all add: getText_def)
  have args: "?g = string_slice ?t ?a ?b"
    by (simp add: getText_def)
  have bounds: "0 \<le> ?a" "?b \<le> int (length ?t)"
    by simp_all
  have nonneg: "?g = substring ?t (clamp (length ?t) (start - or_zero beforeCount))
      (clamp (length ?t) (fin + or_zero afterCount))"
    if "0 \<le> fin + or_zero afterCount"
    using that by (simp add: args string_slice_clamped) (simp add: clamp_def min_def max_def)
  have neg: "?g = substring ?t (clamp (length ?t) (start - or_zero beforeCount))
      (clamp (length ?t) (int (length ?t) + (fin + or_zero afterCount)))"
    if "fin + or_zero afterCount < 0"
  proof -
    from that have "?b = fin + or_zero afterCount" and "?b < 0"
      by simp_all
    with string_slice_from_end [OF bounds(1), of ?b ?t] args show ?thesis
      by (simp add: clamp_max)
  qed
  from sub none args bounds nonneg neg show ?thesis by blast
qed

text \<open>
  Two instances in the text \<^verbatim>\<open>hello\<close>: the range \<^verbatim>\<open>[1, 3]\<close> with one code unit before it
  and five after it is \<^verbatim>\<open>hello\<close> itself, the end being clamped to the length; and the
  range \<^verbatim>\<open>[0, 3]\<close> with \<^verbatim>\<open>afterCount = -4\<close> ends one code unit before the end of the text.
\<close>

theorem getText_substring_witness:
  "(0::int) \<le> 3 + or_zero (Some 5)
   \<and> getText \<lparr>sc_text = ustr ''hello'', ast = None, lines = [ustr ''hello''], hasBOM = False\<rparr>
       (Some \<lparr>node_range = Some (1, 3)\<rparr>) (Some 1) (Some 5) = ustr ''hello''
   \<and> substring (ustr ''hello'') (clamp 5 (1 - or_zero (Some 1))) (clamp 5 (3 + or_zero (Some 5)))
     = ustr ''hello''
   \<and> (3::int) + or_zero (Some (- 4)) < 0
   \<and> getText \<lparr>sc_text = ustr ''hello'', ast = None, lines = [ustr ''hello''], hasBOM = False\<rparr>
       (Some \<lparr>node_range = Some (0, 3)\<rparr>) None (Some (- 4)) = ustr ''hell''
   \<and> substring (ustr ''hello'') (clamp 5 (0 - or_zero None))
       (clamp 5 (5 + (3 + or_zero (Some (- 4))))) = ustr ''hell''"
  using getText_substring [of
      "\<lparr>sc_text = ustr ''hello'', ast = None, lines = [ustr ''hello''], hasBOM = False\<rparr>"
      "Some \<lparr>node_range = Some (1, 3)\<rparr>" "Some 1" "Some 5" 1 3]
    getText_substring [of
      "\<lparr>sc_text = ustr ''hello'', ast = None, lines = [ustr ''hello''], hasBOM = False\<rparr>"
      "Some \<lparr>node_range = Some (0, 3)\<rparr>" None "Some (- 4)" 0 3]
  by (simp add: getText_def string_slice_def or_zero_def ustr_def substring_def clamp_def)

end
